theory Spec2Isabelle
  imports Main "HOL-Library.Multiset"
begin

section \<open>Data model\<close>

text \<open>
  The backend keeps two collections, \<open>User\<close> (modules/user.js) and \<open>Match\<close>
  (modules/match.js). An ObjectId is an opaque unique identifier, a timestamp is a number of
  milliseconds. A string field that is absent from a document is the empty string, which
  JavaScript treats as falsy like \<open>undefined\<close>; the optional avatar is an option. A
  date is a \<open>Date\<close> with its time value, JavaScript's Invalid Date, or no date at all.
\<close>

type_synonym oid = nat

datatype js_date = Date int | Invalid_Date | No_Date

record user =
  u_id :: oid
  firstName :: string
  lastName :: string
  genre :: string
  email :: string
  password :: string
  dob :: js_date
  preference :: string
  interests :: "string list"
  avatar :: "string option"
  liked :: "oid list"
  likedBy :: "oid list"

record match_doc =
  userA :: oid
  userB :: oid
  createdAt :: int

text \<open>
  The store: both collections in insertion order, and whether the connection to the
  database works. \<open>connectDB\<close> only logs a failed connection, so the server also runs
  without one; every operation on the store then fails.
\<close>

record db =
  connected :: bool
  users :: "user list"
  matches :: "match_doc list"

datatype failure = DbFailure | TypeError | CastError | ValidationError | DuplicateKey

subsection \<open>What the handlers send\<close>

text \<open>\<open>select('-password -liked -likedBy')\<close>\<close>

record candidate =
  c_id :: oid
  c_firstName :: string
  c_lastName :: string
  c_genre :: string
  c_email :: string
  c_dob :: js_date
  c_preference :: string
  c_interests :: "string list"
  c_avatar :: "string option"

text \<open>\<open>select('-password')\<close>\<close>

record profile =
  p_public :: candidate
  p_liked :: "oid list"
  p_likedBy :: "oid list"

text \<open>\<open>populate(slot, 'firstName lastName avatar')\<close>\<close>

record populated =
  q_id :: oid
  q_firstName :: string
  q_lastName :: string
  q_avatar :: "string option"

record populated_match =
  m_userA :: "populated option"
  m_userB :: "populated option"
  m_createdAt :: int

datatype body =
    Message string
  | MessageMatch string match_doc
  | Candidates "candidate list"
  | Profile "profile option"
  | Matches "populated_match list"
  | Session string oid string "string option"

text \<open>
  A handler either writes a response (status and JSON body), or its promise is rejected
  with nothing written.
\<close>

datatype outcome = Reply nat body | Rejected failure

definition select_candidate :: "user \<Rightarrow> candidate" where
  "select_candidate u =
     \<lparr>c_id = u_id u, c_firstName = firstName u, c_lastName = lastName u, c_genre = genre u,
      c_email = email u, c_dob = dob u, c_preference = preference u,
      c_interests = interests u, c_avatar = avatar u\<rparr>"

definition select_profile :: "user \<Rightarrow> profile" where
  "select_profile u =
     \<lparr>p_public = select_candidate u, p_liked = liked u, p_likedBy = likedBy u\<rparr>"

definition select_populated :: "user \<Rightarrow> populated" where
  "select_populated u =
     \<lparr>q_id = u_id u, q_firstName = firstName u, q_lastName = lastName u, q_avatar = avatar u\<rparr>"

section \<open>The persistence layer\<close>

text \<open>The document with a given id, as the store holds it.\<close>

definition lookup :: "db \<Rightarrow> oid \<Rightarrow> user option" where
  "lookup d i = List.find (\<lambda>u. u_id u = i) (users d)"

definition findById :: "db \<Rightarrow> oid \<Rightarrow> failure + user option" where
  "findById d i = (if connected d then Inr (lookup d i) else Inl DbFailure)"

text \<open>
  The \<open>targetId\<close> of a request body is any JSON value: none at all (or a falsy one, which
  \<open>!targetId\<close> does not tell apart); a string that is a well-formed ObjectId; a value that
  cannot be cast to an ObjectId; or an object of query operators such as \<open>{ $ne: null }\<close>,
  which as a condition on \<open>_id\<close> holds of some ids.
\<close>

datatype target = Absent | Id oid | Malformed | Matching "oid \<Rightarrow> bool"

text \<open>What \<open>!targetId\<close> tests.\<close>

definition truthy :: "target \<Rightarrow> bool" where
  "truthy t = (case t of Absent \<Rightarrow> False | _ \<Rightarrow> True)"

text \<open>
  \<open>ObjectId.equals\<close> holds of an id string with the same id, and of no other value of the
  request.
\<close>

definition equals :: "oid \<Rightarrow> target \<Rightarrow> bool" where
  "equals i t = (case t of Id j \<Rightarrow> i = j | _ \<Rightarrow> False)"

text \<open>
  \<open>User.findById(targetId)\<close> is \<open>findOne({ _id: targetId })\<close>: the cast of a value that is
  no ObjectId throws, and a condition selects the first user whose id it holds of.
\<close>

definition findById_target :: "db \<Rightarrow> target \<Rightarrow> failure + user option" where
  "findById_target d t =
     (case t of
        Malformed \<Rightarrow> Inl CastError
      | Absent \<Rightarrow> (if connected d then Inr None else Inl DbFailure)
      | Id i \<Rightarrow> findById d i
      | Matching P \<Rightarrow>
          (if connected d then Inr (List.find (\<lambda>u. P (u_id u)) (users d)) else Inl DbFailure))"

text \<open>A write to the stored document with a given id.\<close>

definition modify :: "oid \<Rightarrow> (user \<Rightarrow> user) \<Rightarrow> db \<Rightarrow> db" where
  "modify i f d = d\<lparr>users := map (\<lambda>u. if u_id u = i then f u else u) (users d)\<rparr>"

text \<open>
  \<open>doc.save()\<close> after a push on one array writes that path of the stored document and
  nothing else of it; \<open>me\<close> and \<open>target\<close> are two copies, read at different times, and
  may be copies of one document.
\<close>

definition save_liked :: "db \<Rightarrow> user \<Rightarrow> failure + db" where
  "save_liked d doc =
     (if connected d then Inr (modify (u_id doc) (\<lambda>u. u\<lparr>liked := liked doc\<rparr>) d)
      else Inl DbFailure)"

definition save_likedBy :: "db \<Rightarrow> user \<Rightarrow> failure + db" where
  "save_likedBy d doc =
     (if connected d then Inr (modify (u_id doc) (\<lambda>u. u\<lparr>likedBy := likedBy doc\<rparr>) d)
      else Inl DbFailure)"

text \<open>The symmetric query of the like handler: either id may be in either slot.\<close>

definition pairs :: "oid \<Rightarrow> oid \<Rightarrow> match_doc \<Rightarrow> bool" where
  "pairs a b m \<longleftrightarrow> (userA m = a \<and> userB m = b) \<or> (userA m = b \<and> userB m = a)"

definition findOne_match :: "db \<Rightarrow> oid \<Rightarrow> oid \<Rightarrow> failure + match_doc option" where
  "findOne_match d a b =
     (if connected d then Inr (List.find (pairs a b) (matches d)) else Inl DbFailure)"

text \<open>\<open>Match.create\<close>: the schema's default fills \<open>createdAt\<close> with the current time.\<close>

definition create_match :: "db \<Rightarrow> int \<Rightarrow> oid \<Rightarrow> oid \<Rightarrow> failure + db \<times> match_doc" where
  "create_match d now a b =
     (if connected d
      then (let m = \<lparr>userA = a, userB = b, createdAt = now\<rparr>
            in Inr (d\<lparr>matches := matches d @ [m]\<rparr>, m))
      else Inl DbFailure)"

section \<open>POST /api/like\<close>

text \<open>
  Lines 207 to 214: the target's id is pushed on \<open>me.liked\<close> and \<open>me\<close> is saved, unless
  the id is found there already.
\<close>

definition push_liked :: "db \<Rightarrow> user \<Rightarrow> user \<Rightarrow> failure + db" where
  "push_liked d me target =
     (if List.find (\<lambda>i. i = u_id target) (liked me) = None
      then save_liked d (me\<lparr>liked := liked me @ [u_id target]\<rparr>)
      else Inr d)"

text \<open>Lines 216 to 223, the same for \<open>target.likedBy\<close>.\<close>

definition push_likedBy :: "db \<Rightarrow> user \<Rightarrow> user \<Rightarrow> failure + db" where
  "push_likedBy d me target =
     (if List.find (\<lambda>i. i = u_id me) (likedBy target) = None
      then save_likedBy d (target\<lparr>likedBy := likedBy target @ [u_id me]\<rparr>)
      else Inr d)"

text \<open>Lines 225 to 241: the mutual check on the target as it was read, then the match.\<close>

definition form_match :: "db \<Rightarrow> int \<Rightarrow> user \<Rightarrow> user \<Rightarrow> db \<times> (failure + nat \<times> body)" where
  "form_match d now me target =
     (if List.find (\<lambda>i. i = u_id me) (liked target) \<noteq> None
      then (case findOne_match d (u_id me) (u_id target) of
              Inl e \<Rightarrow> (d, Inl e)
            | Inr (Some m) \<Rightarrow> (d, Inr (200, Message ''Liked''))
            | Inr None \<Rightarrow>
                (case create_match d now (u_id me) (u_id target) of
                   Inl e \<Rightarrow> (d, Inl e)
                 | Inr (d', m) \<Rightarrow> (d', Inr (200, MessageMatch ''It's a match!'' m))))
      else (d, Inr (200, Message ''Liked'')))"

text \<open>
  The body of the \<open>try\<close> block. The state it returns is the store at the moment the handler
  answers or throws.
\<close>

definition like_try :: "db \<Rightarrow> int \<Rightarrow> oid \<Rightarrow> target \<Rightarrow> db \<times> (failure + nat \<times> body)" where
  "like_try d now rid targetId =
     (case findById d rid of
        Inl e \<Rightarrow> (d, Inl e)
      | Inr me_opt \<Rightarrow>
          if \<not> truthy targetId then (d, Inr (400, Message ''targetId required''))
          else
            (case me_opt of
               None \<Rightarrow> (d, Inl TypeError)
             | Some me \<Rightarrow>
                 if equals (u_id me) targetId
                 then (d, Inr (400, Message ''Cannot like yourself''))
                 else
                   (case findById_target d targetId of
                      Inl e \<Rightarrow> (d, Inl e)
                    | Inr None \<Rightarrow> (d, Inr (404, Message ''User not found''))
                    | Inr (Some target) \<Rightarrow>
                        (case push_liked d me target of
                           Inl e \<Rightarrow> (d, Inl e)
                         | Inr d1 \<Rightarrow>
                             (case push_likedBy d1 me target of
                                Inl e \<Rightarrow> (d1, Inl e)
                              | Inr d2 \<Rightarrow> form_match d2 now me target)))))"

text \<open>The \<open>catch\<close> block turns whatever was thrown into the generic 500.\<close>

definition like :: "db \<Rightarrow> int \<Rightarrow> oid \<Rightarrow> target \<Rightarrow> db \<times> outcome" where
  "like d now rid targetId =
     (case like_try d now rid targetId of
        (d', Inl e) \<Rightarrow> (d', Reply 500 (Message ''Server error''))
      | (d', Inr (status, b)) \<Rightarrow> (d', Reply status b))"

section \<open>GET /api/users\<close>

definition excluded :: "user \<Rightarrow> oid list" where
  "excluded me = u_id me # liked me"

text \<open>
  The query object: \<open>_id\<close> not among the excluded ids, and \<open>genre\<close> equal to the
  preference when the preference is set and is not \<open>'all'\<close>.
\<close>

definition candidate_query :: "user \<Rightarrow> user \<Rightarrow> bool" where
  "candidate_query me u \<longleftrightarrow>
     u_id u \<notin> set (excluded me) \<and>
     (if preference me \<noteq> [] \<and> preference me \<noteq> ''all'' then genre u = preference me else True)"

definition find_users :: "db \<Rightarrow> (user \<Rightarrow> bool) \<Rightarrow> nat \<Rightarrow> failure + user list" where
  "find_users d q n = (if connected d then Inr (take n (filter q (users d))) else Inl DbFailure)"

text \<open>The handler has no \<open>try\<close>: what a query throws rejects the handler's promise.\<close>

definition listCandidates :: "db \<Rightarrow> oid \<Rightarrow> outcome" where
  "listCandidates d rid =
     (case findById d rid of
        Inl e \<Rightarrow> Rejected e
      | Inr None \<Rightarrow> Rejected TypeError
      | Inr (Some me) \<Rightarrow>
          (case find_users d (candidate_query me) 50 of
             Inl e \<Rightarrow> Rejected e
           | Inr us \<Rightarrow> Reply 200 (Candidates (map select_candidate us))))"

section \<open>GET /api/users/all\<close>

definition listAll :: "db \<Rightarrow> oid \<Rightarrow> outcome" where
  "listAll d rid =
     (case find_users d (\<lambda>u. u_id u \<noteq> rid) 50 of
        Inl e \<Rightarrow> Reply 500 (Message ''Server error'')
      | Inr us \<Rightarrow> Reply 200 (Candidates (map select_candidate us)))"

section \<open>GET /api/matches\<close>

definition populate :: "db \<Rightarrow> oid \<Rightarrow> populated option" where
  "populate d i = map_option select_populated (lookup d i)"

definition populate_match :: "db \<Rightarrow> match_doc \<Rightarrow> populated_match" where
  "populate_match d m =
     \<lparr>m_userA = populate d (userA m), m_userB = populate d (userB m),
      m_createdAt = createdAt m\<rparr>"

text \<open>\<open>sort({ createdAt: -1 })\<close>: ascending in the negated timestamp.\<close>

definition find_matches :: "db \<Rightarrow> oid \<Rightarrow> failure + populated_match list" where
  "find_matches d userId =
     (if connected d
      then Inr (map (populate_match d)
                 (sort_key (\<lambda>m. - createdAt m)
                   (filter (\<lambda>m. userA m = userId \<or> userB m = userId) (matches d))))
      else Inl DbFailure)"

definition listMatches :: "db \<Rightarrow> oid \<Rightarrow> outcome" where
  "listMatches d userId =
     (case find_matches d userId of
        Inl e \<Rightarrow> Rejected e
      | Inr ms \<Rightarrow> Reply 200 (Matches ms))"

section \<open>PUT /api/users/me\<close>

text \<open>
  The text of a date in a request: empty, one that JavaScript parses to a time value, or
  one that it does not parse.
\<close>

datatype date_text = Blank | Parses int | Unparsable

text \<open>
  The request body is passed to \<open>findByIdAndUpdate\<close> as it is: each field of the schema
  that the body names is set to the value given, cast to the type of the schema.
\<close>

record updates =
  set_firstName :: "string option"
  set_lastName :: "string option"
  set_genre :: "string option"
  set_email :: "string option"
  set_password :: "string option"
  set_dob :: "date_text option"
  set_preference :: "string option"
  set_interests :: "string list option"
  set_avatar :: "string option option"
  set_liked :: "oid list option"
  set_likedBy :: "oid list option"

definition or_else :: "'a option \<Rightarrow> 'a \<Rightarrow> 'a" where
  "or_else new old = (case new of None \<Rightarrow> old | Some v \<Rightarrow> v)"

definition lower_char :: "char \<Rightarrow> char" where
  "lower_char c =
     (let n = (of_char c :: nat) in if 65 \<le> n \<and> n \<le> 90 then char_of (n + 32) else c)"

text \<open>
  The cast of a date by the schema: an empty text is no date, a text that does not parse
  fails the cast.
\<close>

fun cast_date :: "date_text \<Rightarrow> failure + js_date" where
  "cast_date Blank = Inr No_Date"
| "cast_date (Parses n) = Inr (Date n)"
| "cast_date Unparsable = Inl CastError"

text \<open>
  The document after the update. The schema lowercases \<open>email\<close>; the enums are not
  validated on an update.
\<close>

definition apply_updates :: "updates \<Rightarrow> user \<Rightarrow> user" where
  "apply_updates upd u =
     \<lparr>u_id = u_id u,
      firstName = or_else (set_firstName upd) (firstName u),
      lastName = or_else (set_lastName upd) (lastName u),
      genre = or_else (set_genre upd) (genre u),
      email = or_else (map_option (map lower_char) (set_email upd)) (email u),
      password = or_else (set_password upd) (password u),
      dob = (case set_dob upd of
               None \<Rightarrow> dob u
             | Some txt \<Rightarrow> (case cast_date txt of Inl e \<Rightarrow> dob u | Inr v \<Rightarrow> v)),
      preference = or_else (set_preference upd) (preference u),
      interests = or_else (set_interests upd) (interests u),
      avatar = or_else (set_avatar upd) (avatar u),
      liked = or_else (set_liked upd) (liked u),
      likedBy = or_else (set_likedBy upd) (likedBy u)\<rparr>"

text \<open>
  \<open>findByIdAndUpdate\<close>: a date that fails the cast refuses the update before anything is
  sent, and the unique index on \<open>email\<close> refuses an address that another user has. With
  \<open>{ new: true }\<close> the updated document comes back, or null for an unknown id.
\<close>

definition email_taken :: "db \<Rightarrow> oid \<Rightarrow> string \<Rightarrow> bool" where
  "email_taken d i e \<longleftrightarrow> list_ex (\<lambda>v. u_id v \<noteq> i \<and> email v = map lower_char e) (users d)"

definition findByIdAndUpdate :: "db \<Rightarrow> oid \<Rightarrow> updates \<Rightarrow> failure + db \<times> user option" where
  "findByIdAndUpdate d i upd =
     (if set_dob upd = Some Unparsable then Inl CastError
      else if \<not> connected d then Inl DbFailure
      else (case lookup d i of
              None \<Rightarrow> Inr (d, None)
            | Some u \<Rightarrow>
                if (case set_email upd of None \<Rightarrow> False | Some e \<Rightarrow> email_taken d i e)
                then Inl DuplicateKey
                else Inr (modify i (apply_updates upd) d, Some (apply_updates upd u))))"

definition updateProfile :: "db \<Rightarrow> oid \<Rightarrow> updates \<Rightarrow> db \<times> outcome" where
  "updateProfile d rid upd =
     (case findByIdAndUpdate d rid upd of
        Inl e \<Rightarrow> (d, Rejected e)
      | Inr (d', doc) \<Rightarrow> (d', Reply 200 (Profile (map_option select_profile doc))))"

section \<open>POST /api/register\<close>

text \<open>
  The text fields of the multipart body; a field that was not sent is the empty string, or
  the blank date.
\<close>

record registration =
  r_firstName :: string
  r_lastName :: string
  r_genre :: string
  r_email :: string
  r_password :: string
  r_dob :: date_text
  r_preference :: string

text \<open>\<open>new Date(text)\<close>\<close>

fun new_Date :: "date_text \<Rightarrow> js_date" where
  "new_Date (Parses n) = Date n"
| "new_Date Blank = Invalid_Date"
| "new_Date Unparsable = Invalid_Date"

text \<open>
  \<open>User.create\<close>: the schema lowercases \<open>email\<close>, refuses an Invalid Date, validates the
  two enums, and the indexes on \<open>_id\<close> and \<open>email\<close> reject a duplicate. The arrays start
  empty.
\<close>

definition create_user :: "db \<Rightarrow> user \<Rightarrow> failure + db \<times> user" where
  "create_user d doc =
     (let u = doc\<lparr>email := map lower_char (email doc)\<rparr> in
      if \<not> connected d then Inl DbFailure
      else if dob u = Invalid_Date \<or> genre u \<notin> {''male'', ''female''} \<or>
              preference u \<notin> {''male'', ''female'', ''all''}
        then Inl ValidationError
      else if u_id u \<in> u_id ` set (users d) \<or> email u \<in> email ` set (users d)
        then Inl DuplicateKey
      else Inr (d\<lparr>users := users d @ [u]\<rparr>, u))"

text \<open>
  The handler. The ObjectId of the new document, \<open>bcrypt.hash\<close> and \<open>jwt.sign\<close> belong to
  the libraries and are parameters here; \<open>file\<close> is the name of the uploaded avatar.
\<close>

definition register ::
  "db \<Rightarrow> oid \<Rightarrow> (string \<Rightarrow> string) \<Rightarrow> (oid \<Rightarrow> string) \<Rightarrow> registration \<Rightarrow> string option
     \<Rightarrow> db \<times> outcome" where
  "register d new_id hash sign b file =
     (if r_firstName b = [] \<or> r_lastName b = [] \<or> r_genre b = [] \<or> r_email b = [] \<or>
         r_password b = [] \<or> r_dob b = Blank \<or> r_preference b = []
      then (d, Reply 400 (Message ''Missing fields''))
      else
        (let userData =
               \<lparr>u_id = new_id, firstName = r_firstName b, lastName = r_lastName b,
                genre = r_genre b, email = r_email b, password = hash (r_password b),
                dob = new_Date (r_dob b),
                preference = (if r_preference b \<noteq> [] then r_preference b else ''all''),
                interests = [],
                avatar = map_option (\<lambda>f. ''/uploads/'' @ f) file,
                liked = [], likedBy = []\<rparr>
         in case create_user d userData of
              Inl e \<Rightarrow> (d, Reply 500 (Message ''Server error''))
            | Inr (d', u) \<Rightarrow>
                (d', Reply 200 (Session (sign (u_id u)) (u_id u) (firstName u) (avatar u)))))"

section \<open>Auxiliary notions for the proofs\<close>

text \<open>
  The store after the two conditional writes of the like handler (lines 207 to 223), for
  a requester \<open>me\<close> and a target as they were read.
\<close>

definition written :: "db \<Rightarrow> user \<Rightarrow> user \<Rightarrow> db" where
  "written d me target =
     (let d1 = (if u_id target \<in> set (liked me) then d
                else modify (u_id me) (\<lambda>u. u\<lparr>liked := liked me @ [u_id target]\<rparr>) d)
      in if u_id me \<in> set (likedBy target) then d1
         else modify (u_id target) (\<lambda>u. u\<lparr>likedBy := likedBy target @ [u_id me]\<rparr>) d1)"

text \<open>The user that a target value selects, in a working store.\<close>

definition selected :: "db \<Rightarrow> target \<Rightarrow> user option" where
  "selected d t =
     (case t of
        Id i \<Rightarrow> lookup d i
      | Matching P \<Rightarrow> List.find (\<lambda>u. P (u_id u)) (users d)
      | _ \<Rightarrow> None)"

subsection \<open>The invariant of the relation lists\<close>

text \<open>
  No user is in their own \<open>liked\<close> or \<open>likedBy\<close> list, and neither list repeats an id.
\<close>

definition user_ok :: "user \<Rightarrow> bool" where
  "user_ok u \<longleftrightarrow> u_id u \<notin> set (liked u) \<and> u_id u \<notin> set (likedBy u) \<and>
     distinct (liked u) \<and> distinct (likedBy u)"

definition relations_ok :: "db \<Rightarrow> bool" where
  "relations_ok d = list_all user_ok (users d)"

subsection \<open>Plain use of the service\<close>

text \<open>
  The stores that come about from the empty collections by registrations, by likes whose
  target is not an object of query operators, and by profile updates whose body names
  neither \<open>liked\<close> nor \<open>likedBy\<close>, every request running to its end; the connection may
  come and go between requests. These are not all the stores the service can be brought
  to: a profile update may name the relation lists, and a like may fail after its first
  write.
\<close>

inductive plain_use :: "db \<Rightarrow> bool" where
  start: "plain_use \<lparr>connected = c, users = [], matches = []\<rparr>"
| connection: "plain_use d \<Longrightarrow> plain_use (d\<lparr>connected := c\<rparr>)"
| by_register: "plain_use d \<Longrightarrow> plain_use (fst (register d new_id hash sign b up))"
| by_like: "plain_use d \<Longrightarrow> \<forall>P. t \<noteq> Matching P \<Longrightarrow> plain_use (fst (like d now rid t))"
| by_update: "plain_use d \<Longrightarrow> set_liked upd = None \<Longrightarrow> set_likedBy upd = None
     \<Longrightarrow> plain_use (fst (updateProfile d rid upd))"

text \<open>
  What such a store keeps: whoever is in a user's liked list is a user and has that user in
  the likedBy list, and the two users of a match record are different users who have liked
  each other.
\<close>

definition consistent :: "db \<Rightarrow> bool" where
  "consistent d \<longleftrightarrow>
     (\<forall>i u. lookup d i = Some u \<longrightarrow>
        (\<forall>j \<in> set (liked u). \<exists>v. lookup d j = Some v \<and> i \<in> set (likedBy v)))
   \<and> (\<forall>m \<in> set (matches d). userA m \<noteq> userB m \<and>
        (\<exists>a b. lookup d (userA m) = Some a \<and> lookup d (userB m) = Some b \<and>
               userB m \<in> set (liked a) \<and> userA m \<in> set (liked b)))"

text \<open>Insertion of an id into a list that is used as a set.\<close>

definition add_once :: "oid \<Rightarrow> oid list \<Rightarrow> oid list" where
  "add_once x xs = (if x \<in> set xs then xs else xs @ [x])"

subsection \<open>The scenario of the specification\<close>

text \<open>
  A registers (male, prefers female), B registers (female, prefers male), A likes B at
  time 10, B likes A at time 20. The two functions stand in for \<open>bcrypt.hash\<close> and
  \<open>jwt.sign\<close>.
\<close>

definition hash_demo :: "string \<Rightarrow> string" where
  "hash_demo p = ''#'' @ p"

definition sign_demo :: "oid \<Rightarrow> string" where
  "sign_demo i = ''token''"

definition reg_ana :: registration where
  "reg_ana = \<lparr>r_firstName = ''Ana'', r_lastName = ''A'', r_genre = ''male'',
     r_email = ''ana@x.org'', r_password = ''pw'', r_dob = Parses 631152000000,
     r_preference = ''female''\<rparr>"

definition reg_bia :: registration where
  "reg_bia = \<lparr>r_firstName = ''Bia'', r_lastName = ''B'', r_genre = ''female'',
     r_email = ''bia@x.org'', r_password = ''pw'', r_dob = Parses 665452800000,
     r_preference = ''male''\<rparr>"

definition ana :: user where
  "ana = \<lparr>u_id = 1, firstName = ''Ana'', lastName = ''A'', genre = ''male'',
     email = ''ana@x.org'', password = ''#pw'', dob = Date 631152000000,
     preference = ''female'', interests = [], avatar = None, liked = [], likedBy = []\<rparr>"

definition bia :: user where
  "bia = \<lparr>u_id = 2, firstName = ''Bia'', lastName = ''B'', genre = ''female'',
     email = ''bia@x.org'', password = ''#pw'', dob = Date 665452800000,
     preference = ''male'', interests = [], avatar = None, liked = [], likedBy = []\<rparr>"

definition db_empty :: db where
  "db_empty = \<lparr>connected = True, users = [], matches = []\<rparr>"

definition db_ana :: db where
  "db_ana = \<lparr>connected = True, users = [ana], matches = []\<rparr>"

definition db_fresh :: db where
  "db_fresh = \<lparr>connected = True, users = [ana, bia], matches = []\<rparr>"

definition db_liked :: db where
  "db_liked = \<lparr>connected = True,
     users = [ana\<lparr>liked := [2]\<rparr>, bia\<lparr>likedBy := [1]\<rparr>], matches = []\<rparr>"

definition db_matched :: db where
  "db_matched = \<lparr>connected = True,
     users = [ana\<lparr>liked := [2], likedBy := [2]\<rparr>, bia\<lparr>liked := [1], likedBy := [1]\<rparr>],
     matches = [\<lparr>userA = 2, userB = 1, createdAt = 20\<rparr>]\<rparr>"

definition caio :: user where
  "caio = \<lparr>u_id = 3, firstName = ''Caio'', lastName = ''C'', genre = ''male'',
     email = ''caio@x.org'', password = ''#pw'', dob = Date 699580800000,
     preference = ''all'', interests = [], avatar = Some ''/uploads/caio.png'', liked = [],
     likedBy = []\<rparr>"

definition db_three :: db where
  "db_three = \<lparr>connected = True, users = [ana, bia, caio], matches = []\<rparr>"

text \<open>The matched store after A's profile update with the body \<open>{ liked: [] }\<close>.\<close>

definition db_wiped :: db where
  "db_wiped = \<lparr>connected = True,
     users = [ana\<lparr>liked := [], likedBy := [2]\<rparr>, bia\<lparr>liked := [1], likedBy := [1]\<rparr>],
     matches = [\<lparr>userA = 2, userB = 1, createdAt = 20\<rparr>]\<rparr>"

text \<open>The fresh store after A's profile update with the body \<open>{ liked: [B, B] }\<close>.\<close>

definition db_doubled :: db where
  "db_doubled = \<lparr>connected = True, users = [ana\<lparr>liked := [2, 2]\<rparr>, bia], matches = []\<rparr>"

text \<open>Three matches made at times 5, 9 and 7.\<close>

definition db_dates :: db where
  "db_dates = \<lparr>connected = True, users = [ana, bia, caio],
     matches = [\<lparr>userA = 1, userB = 2, createdAt = 5\<rparr>, \<lparr>userA = 3, userB = 1, createdAt = 9\<rparr>,
                \<lparr>userA = 2, userB = 3, createdAt = 7\<rparr>]\<rparr>"

text \<open>The store of A and B when the connection is lost.\<close>

definition db_down :: db where
  "db_down = \<lparr>connected = False, users = [ana, bia], matches = []\<rparr>"

text \<open>A request body that names no field, to which single fields are added.\<close>

definition no_updates :: updates where
  "no_updates = \<lparr>set_firstName = None, set_lastName = None, set_genre = None,
     set_email = None, set_password = None, set_dob = None, set_preference = None,
     set_interests = None, set_avatar = None, set_liked = None, set_likedBy = None\<rparr>"

lemmas scenario_defs =
  ana_def bia_def caio_def reg_ana_def reg_bia_def db_empty_def db_ana_def db_fresh_def
  db_liked_def db_matched_def db_three_def db_dates_def db_down_def db_wiped_def
  db_doubled_def

section \<open>Lookups and writes\<close>

lemma truthy_iff [simp]: "truthy t \<longleftrightarrow> t \<noteq> Absent"
  by (cases t) (simp_all add: truthy_def)

lemma lookup_id: "lookup d i = Some u \<Longrightarrow> u_id u = i"
  by (auto simp: lookup_def find_Some_iff)

lemma lookup_mem: "lookup d i = Some u \<Longrightarrow> u \<in> set (users d)"
  by (auto simp: lookup_def find_Some_iff)

lemma find_map_same_id:
  assumes "\<And>u. u_id (f u) = u_id u"
  shows "List.find (\<lambda>u. u_id u = i) (map f us) = map_option f (List.find (\<lambda>u. u_id u = i) us)"
  using assms by (induction us) auto

lemma lookup_modify:
  assumes "\<And>u. u_id (f u) = u_id u"
  shows "lookup (modify i f d) j =
     (case lookup d j of None \<Rightarrow> None | Some u \<Rightarrow> Some (if j = i then f u else u))"
proof -
  have "lookup (modify i f d) j = map_option (\<lambda>u. if u_id u = i then f u else u) (lookup d j)"
    unfolding lookup_def modify_def using assms by (simp add: find_map_same_id)
  then show ?thesis
    by (auto split: option.splits dest: lookup_id)
qed

lemma modify_simps [simp]:
  "connected (modify i f d) = connected d"
  "matches (modify i f d) = matches d"
  by (simp_all add: modify_def)

lemma find_eq_None_mem: "List.find (\<lambda>i. i = x) xs = None \<longleftrightarrow> x \<notin> set xs"
  by (auto simp: find_None_iff)

lemma push_liked_ok:
  "connected d \<Longrightarrow> push_liked d me target =
     Inr (if u_id target \<in> set (liked me) then d
          else modify (u_id me) (\<lambda>u. u\<lparr>liked := liked me @ [u_id target]\<rparr>) d)"
  by (simp add: push_liked_def save_liked_def find_eq_None_mem)

lemma push_likedBy_ok:
  "connected d \<Longrightarrow> push_likedBy d me target =
     Inr (if u_id me \<in> set (likedBy target) then d
          else modify (u_id target) (\<lambda>u. u\<lparr>likedBy := likedBy target @ [u_id me]\<rparr>) d)"
  by (simp add: push_likedBy_def save_likedBy_def find_eq_None_mem)

lemma written_simps [simp]:
  "connected (written d me target) = connected d"
  "matches (written d me target) = matches d"
  by (simp_all add: written_def Let_def)

lemma findById_target_ok:
  "connected d \<Longrightarrow> t \<noteq> Malformed \<Longrightarrow> findById_target d t = Inr (selected d t)"
  by (cases t) (simp_all add: findById_target_def findById_def selected_def)

text \<open>Past the three checks, the handler makes its two writes and decides on the match.\<close>

lemma like_try_selected:
  assumes "connected d" and "lookup d A = Some a" and "selected d t = Some b"
    and "\<not> equals A t"
  shows "like_try d now A t = form_match (written d a b) now a b"
proof -
  have t: "t \<noteq> Absent" "t \<noteq> Malformed"
    using assms(3) by (auto simp: selected_def)
  show ?thesis
    using assms t lookup_id [OF assms(2)]
    by (simp add: like_try_def findById_def findById_target_ok push_liked_ok push_likedBy_ok
        written_def Let_def)
qed

lemma like_try_ok:
  assumes "connected d" "lookup d A = Some a" "lookup d B = Some b" "A \<noteq> B"
  shows "like_try d now A (Id B) = form_match (written d a b) now a b"
  using assms by (intro like_try_selected) (simp_all add: selected_def equals_def)

lemma form_match_ok:
  assumes "connected d"
  shows "form_match d now me target =
     (if u_id me \<in> set (liked target) \<and> (\<forall>m \<in> set (matches d). \<not> pairs (u_id me) (u_id target) m)
      then (d\<lparr>matches := matches d @ [\<lparr>userA = u_id me, userB = u_id target, createdAt = now\<rparr>]\<rparr>,
            Inr (200, MessageMatch ''It's a match!''
                   \<lparr>userA = u_id me, userB = u_id target, createdAt = now\<rparr>))
      else (d, Inr (200, Message ''Liked'')))"
proof (cases "List.find (pairs (u_id me) (u_id target)) (matches d)")
  case None
  then have "\<forall>m \<in> set (matches d). \<not> pairs (u_id me) (u_id target) m"
    by (auto simp: find_None_iff)
  with None assms show ?thesis
    by (simp add: form_match_def findOne_match_def create_match_def Let_def find_eq_None_mem)
next
  case (Some m)
  then have "\<exists>m \<in> set (matches d). pairs (u_id me) (u_id target) m"
    by (auto simp: find_Some_iff)
  with Some assms show ?thesis
    by (auto simp: form_match_def findOne_match_def find_eq_None_mem)
qed

lemma lookup_written:
  assumes "lookup d A = Some a" and "lookup d B = Some b" and "A \<noteq> B"
  shows "lookup (written d a b) i =
     (if i = A then Some (a\<lparr>liked := add_once B (liked a)\<rparr>)
      else if i = B then Some (b\<lparr>likedBy := add_once A (likedBy b)\<rparr>)
      else lookup d i)"
proof -
  have ids: "u_id a = A" "u_id b = B"
    using assms(1,2) by (auto dest: lookup_id)
  show ?thesis
    using assms ids
    by (auto simp: written_def Let_def lookup_modify add_once_def split: option.splits)
qed

lemma set_add_once: "set (add_once x xs) = insert x (set xs)"
  by (auto simp: add_once_def)

lemma mem_add_once: "x \<in> set (add_once x xs)"
  by (simp add: add_once_def)

lemma count_add_once: "count_list (add_once x xs) x = max 1 (count_list xs x)"
proof (cases "x \<in> set xs")
  case True
  then have "count_list xs x \<noteq> 0" by (simp add: count_list_0_iff)
  then have "1 \<le> count_list xs x" by simp
  with True show ?thesis by (simp add: add_once_def max_def)
next
  case False
  then have "count_list xs x = 0" by (simp add: count_list_0_iff)
  with False show ?thesis by (simp add: add_once_def)
qed

lemma written_again:
  assumes "u_id b \<in> set (liked a)" and "u_id a \<in> set (likedBy b)"
  shows "written d a b = d"
  using assms by (simp add: written_def)

lemma lookup_users_cong: "users d' = users d \<Longrightarrow> lookup d' i = lookup d i"
  by (simp add: lookup_def)

lemma form_match_users:
  assumes "connected d"
  shows "users (fst (form_match d now me target)) = users d"
    and "connected (fst (form_match d now me target))"
    and "\<exists>b. snd (form_match d now me target) = Inr (200, b)"
  using assms by (simp_all add: form_match_ok)

lemma form_match_leaves_match:
  assumes "connected d" and "u_id me \<in> set (liked target)"
  shows "\<exists>m \<in> set (matches (fst (form_match d now me target))). pairs (u_id me) (u_id target) m"
  using assms by (auto simp: form_match_ok pairs_def)

lemma like_of_form_match:
  assumes "like_try d now rid t = form_match w now a b" and "connected w"
  shows "\<exists>body. like d now rid t = (fst (form_match w now a b), Reply 200 body)"
proof -
  define d1 where "d1 = fst (form_match w now a b)"
  obtain body where "snd (form_match w now a b) = Inr (200, body)"
    using form_match_users(3) [OF assms(2)] by blast
  then have "form_match w now a b = (d1, Inr (200, body))"
    by (simp add: prod_eq_iff d1_def)
  with assms(1) have "like d now rid t = (d1, Reply 200 body)"
    by (simp add: like_def)
  then show ?thesis unfolding d1_def ..
qed

text \<open>
  A like either leaves the store as it is, or it gets past the checks with the requester
  and the user that the target value selects.
\<close>

lemma like_cases:
  "fst (like d now rid t) = d \<or>
   (\<exists>a b. connected d \<and> lookup d rid = Some a \<and> selected d t = Some b \<and> \<not> equals rid t \<and>
      like_try d now rid t = form_match (written d a b) now a b)"
proof (cases "connected d \<and> (\<exists>a b. lookup d rid = Some a \<and> selected d t = Some b \<and> \<not> equals rid t)")
  case True
  then obtain a b where *: "connected d" "lookup d rid = Some a" "selected d t = Some b"
    "\<not> equals rid t" by blast
  from like_try_selected [OF *, of now] * show ?thesis by blast
next
  case False
  then have "fst (like d now rid t) = d"
    by (cases t)
      (auto simp: like_def like_try_def findById_def findById_target_def selected_def
        split: option.splits dest: lookup_id)
  then show ?thesis ..
qed

section \<open>Validation in the like handler\<close>




text \<open>
  C10. When the like handler answers with one of its error results (status 400 or 404),
  the store it leaves is the store it found: users, their liked and likedBy lists, and
  the match records.
\<close>

theorem like_error_no_write:
  assumes "like d now rid t = (d', Reply s b)" and "s = 400 \<or> s = 404"
  shows "d' = d"
proof -
  from like_cases [of d now rid t] show ?thesis
  proof
    assume "fst (like d now rid t) = d"
    with assms(1) show ?thesis by simp
  next
    assume "\<exists>a b. connected d \<and> lookup d rid = Some a \<and> selected d t = Some b \<and>
      \<not> equals rid t \<and> like_try d now rid t = form_match (written d a b) now a b"
    then obtain a b' where *: "connected d"
      "like_try d now rid t = form_match (written d a b') now a b'" by blast
    obtain body where "like d now rid t = (fst (form_match (written d a b') now a b'), Reply 200 body)"
      using like_of_form_match [OF *(2)] *(1) by auto
    with assms show ?thesis by auto
  qed
qed

theorem like_error_no_write_witness:
  "like db_fresh 10 1 (Id 3) = (db_fresh, Reply 404 (Message ''User not found''))
   \<and> fst (like db_fresh 10 1 (Id 3)) = db_fresh"
proof -
  have e: "like db_fresh 10 1 (Id 3) = (db_fresh, Reply 404 (Message ''User not found''))"
    by (simp add: like_def like_try_def findById_def findById_target_def equals_def lookup_def
        scenario_defs)
  have "(404::nat) = 400 \<or> (404::nat) = 404" by simp
  from like_error_no_write [OF e this] e show ?thesis by simp
qed

section \<open>Match formation\<close>

text \<open>
  C1. A and B are distinct users of a working store, B's liked list holds A, and no match
  record pairs the two in either slot order. Then A's like of B answers "It's a match!"
  with a new record (A, B, time of the call), that record is the one record appended to
  the matches, and afterwards it is the only record that pairs A and B, whichever of the
  two is asked for first.
\<close>

theorem mutual_like_forms_match:
  assumes "connected d" and "lookup d A = Some a" and "lookup d B = Some b" and "A \<noteq> B"
    and "A \<in> set (liked b)" and "\<forall>m \<in> set (matches d). \<not> pairs A B m"
  shows "snd (like d now A (Id B)) =
           Reply 200 (MessageMatch ''It's a match!'' \<lparr>userA = A, userB = B, createdAt = now\<rparr>)
       \<and> matches (fst (like d now A (Id B))) =
           matches d @ [\<lparr>userA = A, userB = B, createdAt = now\<rparr>]
       \<and> filter (pairs A B) (matches (fst (like d now A (Id B)))) =
           [\<lparr>userA = A, userB = B, createdAt = now\<rparr>]
       \<and> filter (pairs B A) (matches (fst (like d now A (Id B)))) =
           [\<lparr>userA = A, userB = B, createdAt = now\<rparr>]"
proof -
  have ids: "u_id a = A" "u_id b = B"
    using assms(2,3) by (auto dest: lookup_id)
  have none: "filter (pairs A B) (matches d) = []" "filter (pairs B A) (matches d) = []"
    using assms(6) by (auto simp: filter_empty_conv pairs_def)
  have "like_try d now A (Id B) =
          (written d a b\<lparr>matches := matches d @ [\<lparr>userA = A, userB = B, createdAt = now\<rparr>]\<rparr>,
           Inr (200, MessageMatch ''It's a match!'' \<lparr>userA = A, userB = B, createdAt = now\<rparr>))"
    using assms ids by (simp add: like_try_ok form_match_ok)
  then show ?thesis
    using none by (simp add: like_def pairs_def)
qed

theorem mutual_like_forms_match_witness:
  "snd (like db_liked 20 2 (Id 1)) =
     Reply 200 (MessageMatch ''It's a match!'' \<lparr>userA = 2, userB = 1, createdAt = 20\<rparr>)
   \<and> matches (fst (like db_liked 20 2 (Id 1))) = [\<lparr>userA = 2, userB = 1, createdAt = 20\<rparr>]
   \<and> filter (pairs 1 2) (matches (fst (like db_liked 20 2 (Id 1)))) =
       [\<lparr>userA = 2, userB = 1, createdAt = 20\<rparr>]"
proof -
  have c: "connected db_liked" by (simp add: db_liked_def)
  have a: "lookup db_liked 2 = Some (bia\<lparr>likedBy := [1]\<rparr>)"
    by (simp add: lookup_def scenario_defs)
  have b: "lookup db_liked 1 = Some (ana\<lparr>liked := [2]\<rparr>)"
    by (simp add: lookup_def scenario_defs)
  have n: "(2::nat) \<noteq> 1" by simp
  have m: "2 \<in> set (liked (ana\<lparr>liked := [2]\<rparr>))" by simp
  have e: "\<forall>m \<in> set (matches db_liked). \<not> pairs 2 1 m" by (simp add: db_liked_def)
  have t: "matches db_liked = []" by (simp add: db_liked_def)
  show ?thesis
    using mutual_like_forms_match [OF c a b n m e, of 20] t by (simp add: pairs_def)
qed

section \<open>Liking twice\<close>

text \<open>
  C6, as the code has it. A and B are distinct users of a working store. Two calls of A's
  like of B in a row both answer with status 200, and the second one answers "Liked" and
  changes nothing. The handler adds B to A's liked list only when it is not there and never
  takes an entry away: afterwards B occurs in A's liked list as often as before the calls,
  and once when it was not there; likewise A in B's likedBy list. So each occurs exactly
  once whenever it occurred at most once before.
\<close>

theorem like_twice:
  assumes "connected d" and "lookup d A = Some a" and "lookup d B = Some b" and "A \<noteq> B"
  shows "\<exists>d1 body a1 b1.
           like d now A (Id B) = (d1, Reply 200 body)
         \<and> like d1 now' A (Id B) = (d1, Reply 200 (Message ''Liked''))
         \<and> lookup d1 A = Some a1 \<and> count_list (liked a1) B = max 1 (count_list (liked a) B)
         \<and> lookup d1 B = Some b1 \<and> count_list (likedBy b1) A = max 1 (count_list (likedBy b) A)"
proof -
  define w where "w = written d a b"
  define d1 where "d1 = fst (form_match w now a b)"
  define a1 where "a1 = a\<lparr>liked := add_once B (liked a)\<rparr>"
  define b1 where "b1 = b\<lparr>likedBy := add_once A (likedBy b)\<rparr>"
  have ids: "u_id a = A" "u_id b = B"
    using assms(2,3) by (auto dest: lookup_id)
  have cw: "connected w" using assms(1) by (simp add: w_def)
  have first: "like_try d now A (Id B) = form_match w now a b"
    unfolding w_def by (rule like_try_ok [OF assms(1-4)])
  from like_of_form_match [OF first cw]
  obtain body where r1: "like d now A (Id B) = (d1, Reply 200 body)"
    unfolding d1_def by blast
  have c1: "connected d1"
    unfolding d1_def by (rule form_match_users(2) [OF cw])
  have u1: "users d1 = users w"
    unfolding d1_def by (rule form_match_users(1) [OF cw])
  have la: "lookup d1 A = Some a1"
    using lookup_written [OF assms(2,3,4), of A] lookup_users_cong [OF u1, of A]
    by (simp add: w_def a1_def)
  have lb: "lookup d1 B = Some b1"
    using lookup_written [OF assms(2,3,4), of B] lookup_users_cong [OF u1, of B] assms(4)
    by (simp add: w_def b1_def)
  have again: "written d1 a1 b1 = d1"
    by (rule written_again) (simp_all add: a1_def b1_def ids mem_add_once)
  have second: "like_try d1 now' A (Id B) = form_match d1 now' a1 b1"
    using like_try_ok [OF c1 la lb assms(4), of now'] again by simp
  have "form_match d1 now' a1 b1 = (d1, Inr (200, Message ''Liked''))"
  proof (cases "A \<in> set (liked b)")
    case True
    then have "\<exists>m \<in> set (matches d1). pairs A B m"
      using form_match_leaves_match [OF cw, of a b now] by (simp add: d1_def ids)
    then show ?thesis
      using c1 by (simp add: form_match_ok a1_def b1_def ids)
  next
    case False
    then show ?thesis
      using c1 by (simp add: form_match_ok a1_def b1_def ids)
  qed
  with second have r2: "like d1 now' A (Id B) = (d1, Reply 200 (Message ''Liked''))"
    by (simp add: like_def)
  have ca: "count_list (liked a1) B = max 1 (count_list (liked a) B)"
    by (simp add: a1_def count_add_once)
  have cb: "count_list (likedBy b1) A = max 1 (count_list (likedBy b) A)"
    by (simp add: b1_def count_add_once)
  from r1 r2 la lb ca cb show ?thesis by blast
qed

theorem like_twice_witness:
  "like db_fresh 10 1 (Id 2) = (db_liked, Reply 200 (Message ''Liked''))
   \<and> like db_liked 11 1 (Id 2) = (db_liked, Reply 200 (Message ''Liked''))
   \<and> lookup db_liked 1 = Some (ana\<lparr>liked := [2]\<rparr>)
   \<and> lookup db_liked 2 = Some (bia\<lparr>likedBy := [1]\<rparr>)"
proof -
  have c: "connected db_fresh" by (simp add: scenario_defs)
  have a: "lookup db_fresh 1 = Some ana" and b: "lookup db_fresh 2 = Some bia"
    by (simp_all add: lookup_def scenario_defs)
  have n: "(1::nat) \<noteq> 2" by simp
  have e: "like db_fresh 10 1 (Id 2) = (db_liked, Reply 200 (Message ''Liked''))"
    by (simp add: like_def like_try_def findById_def findById_target_def equals_def lookup_def
        push_liked_def push_likedBy_def save_liked_def save_likedBy_def modify_def
        form_match_def scenario_defs)
  have l: "lookup db_liked 1 = Some (ana\<lparr>liked := [2]\<rparr>)"
    "lookup db_liked 2 = Some (bia\<lparr>likedBy := [1]\<rparr>)"
    by (simp_all add: lookup_def scenario_defs)
  from like_twice [OF c a b n, of 10 11] e l show ?thesis
    by auto
qed

text \<open>
  After A's profile update with the body \<open>{ liked: [B, B] }\<close>, two likes of B by A succeed and
  leave B twice in A's liked list.
\<close>

theorem like_twice_counterexample:
  "updateProfile db_fresh 1 (no_updates\<lparr>set_liked := Some [2, 2]\<rparr>) =
     (db_doubled, Reply 200 (Profile (Some (select_profile (ana\<lparr>liked := [2, 2]\<rparr>)))))
   \<and> like db_doubled 10 1 (Id 2) =
       (\<lparr>connected = True, users = [ana\<lparr>liked := [2, 2]\<rparr>, bia\<lparr>likedBy := [1]\<rparr>], matches = []\<rparr>,
        Reply 200 (Message ''Liked''))
   \<and> like \<lparr>connected = True, users = [ana\<lparr>liked := [2, 2]\<rparr>, bia\<lparr>likedBy := [1]\<rparr>], matches = []\<rparr>
        11 1 (Id 2) =
       (\<lparr>connected = True, users = [ana\<lparr>liked := [2, 2]\<rparr>, bia\<lparr>likedBy := [1]\<rparr>], matches = []\<rparr>,
        Reply 200 (Message ''Liked''))
   \<and> count_list (liked (ana\<lparr>liked := [2, 2]\<rparr>)) 2 = 2"
  by (simp add: updateProfile_def findByIdAndUpdate_def apply_updates_def or_else_def
      no_updates_def like_def like_try_def findById_def findById_target_def equals_def
      lookup_def push_liked_def push_likedBy_def save_liked_def save_likedBy_def modify_def
      form_match_def scenario_defs)

section \<open>Candidates\<close>

lemma listCandidates_ok:
  assumes "connected d" and "lookup d rid = Some me"
  shows "listCandidates d rid =
     Reply 200 (Candidates (map select_candidate (take 50 (filter (candidate_query me) (users d)))))"
  using assms by (simp add: listCandidates_def findById_def find_users_def)

lemma take_filter_holds: "u \<in> set (take n (filter P us)) \<Longrightarrow> P u"
  using set_take_subset [of n "filter P us"] by auto

text \<open>
  C5. For an authenticated requester U on a working store, the candidate list holds neither
  U nor any user whose id is in U's liked list, and it has at most 50 entries; when U has
  liked nobody, the excluded ids are just U's own.
\<close>

theorem candidates_exclusion:
  assumes "connected d" and "lookup d rid = Some me"
  shows "\<exists>cs. listCandidates d rid = Reply 200 (Candidates cs)
           \<and> (\<forall>c \<in> set cs. c_id c \<noteq> rid \<and> c_id c \<notin> set (liked me))
           \<and> length cs \<le> 50
           \<and> (liked me = [] \<longrightarrow> set (excluded me) = {rid})"
proof -
  define us where "us = take 50 (filter (candidate_query me) (users d))"
  have id: "u_id me = rid" using assms(2) by (rule lookup_id)
  have q: "candidate_query me u" if "u \<in> set us" for u
    using that unfolding us_def by (rule take_filter_holds)
  have "c_id c \<noteq> rid \<and> c_id c \<notin> set (liked me)" if "c \<in> set (map select_candidate us)" for c
  proof -
    from that obtain u where "u \<in> set us" and c: "c = select_candidate u" by auto
    from q [OF this(1)] have "u_id u \<noteq> rid" "u_id u \<notin> set (liked me)"
      using id by (simp_all add: candidate_query_def excluded_def)
    then show ?thesis by (simp add: c select_candidate_def)
  qed
  then have 1: "\<forall>c \<in> set (map select_candidate us). c_id c \<noteq> rid \<and> c_id c \<notin> set (liked me)"
    by blast
  have 2: "length (map select_candidate us) \<le> 50" by (simp add: us_def)
  have 3: "liked me = [] \<longrightarrow> set (excluded me) = {rid}"
    using id by (simp add: excluded_def)
  have 4: "listCandidates d rid = Reply 200 (Candidates (map select_candidate us))"
    unfolding us_def by (rule listCandidates_ok [OF assms])
  from 1 2 3 4 show ?thesis by blast
qed

theorem candidates_exclusion_witness:
  "listCandidates db_liked 1 = Reply 200 (Candidates [])
   \<and> listCandidates db_three 3 = Reply 200 (Candidates [select_candidate ana, select_candidate bia])"
proof -
  have c: "connected db_liked" "connected db_three" by (simp_all add: scenario_defs)
  have l: "lookup db_liked 1 = Some (ana\<lparr>liked := [2]\<rparr>)" "lookup db_three 3 = Some caio"
    by (simp_all add: lookup_def scenario_defs)
  have e1: "listCandidates db_liked 1 = Reply 200 (Candidates [])"
    by (simp add: listCandidates_def findById_def find_users_def lookup_def candidate_query_def
        excluded_def scenario_defs)
  have e2: "listCandidates db_three 3 = Reply 200 (Candidates [select_candidate ana, select_candidate bia])"
    by (simp add: listCandidates_def findById_def find_users_def lookup_def candidate_query_def
        excluded_def scenario_defs)
  from candidates_exclusion [OF c(1) l(1)] candidates_exclusion [OF c(2) l(2)] e1 e2
  show ?thesis by simp
qed

text \<open>
  C4, as the code has it. The list is filtered by genre equal to the requester's
  preference; the filter is left out exactly when the preference is \<open>'all'\<close> or is empty
  (unset), and then users of every genre are returned, the excluded ids apart.
\<close>

theorem candidates_gender_filter:
  assumes "connected d" and "lookup d rid = Some me"
  shows "(preference me = [] \<or> preference me = ''all'' \<longrightarrow>
            listCandidates d rid = Reply 200 (Candidates (map select_candidate (take 50
              (filter (\<lambda>u. u_id u \<notin> set (excluded me)) (users d))))))
       \<and> (preference me \<noteq> [] \<and> preference me \<noteq> ''all'' \<longrightarrow>
            listCandidates d rid = Reply 200 (Candidates (map select_candidate (take 50
              (filter (\<lambda>u. u_id u \<notin> set (excluded me) \<and> genre u = preference me) (users d))))))"
proof (cases "preference me \<noteq> [] \<and> preference me \<noteq> ''all''")
  case True
  then have "candidate_query me = (\<lambda>u. u_id u \<notin> set (excluded me) \<and> genre u = preference me)"
    by (simp add: candidate_query_def fun_eq_iff)
  with True show ?thesis using listCandidates_ok [OF assms] by simp
next
  case False
  then have "candidate_query me = (\<lambda>u. u_id u \<notin> set (excluded me))"
    by (auto simp: candidate_query_def fun_eq_iff)
  with False show ?thesis using listCandidates_ok [OF assms] by auto
qed

theorem candidates_gender_filter_witness:
  "listCandidates db_three 3 = Reply 200 (Candidates [select_candidate ana, select_candidate bia])
   \<and> listCandidates db_three 1 = Reply 200 (Candidates [select_candidate bia])"
proof -
  have c: "connected db_three" by (simp add: scenario_defs)
  have l: "lookup db_three 3 = Some caio" "lookup db_three 1 = Some ana"
    by (simp_all add: lookup_def scenario_defs)
  have p: "preference caio = ''all''" "preference ana \<noteq> [] \<and> preference ana \<noteq> ''all''"
    by (simp_all add: scenario_defs)
  from candidates_gender_filter [OF c l(1)] candidates_gender_filter [OF c l(2)] p
  show ?thesis
    by (simp add: excluded_def scenario_defs)
qed

text \<open>
  The preference \<open>'any'\<close> is not the one that lifts the filter: a requester who prefers
  \<open>'any'\<close> is shown only users whose genre is \<open>'any'\<close>, here nobody, while \<open>'all'\<close>
  and the empty preference show both other users.
\<close>

theorem candidates_any_counterexample:
  "listCandidates (fst (updateProfile db_three 3 (no_updates\<lparr>set_preference := Some ''any''\<rparr>))) 3
     = Reply 200 (Candidates [])
   \<and> listCandidates db_three 3
     = Reply 200 (Candidates [select_candidate ana, select_candidate bia])
   \<and> listCandidates (fst (updateProfile db_three 3 (no_updates\<lparr>set_preference := Some []\<rparr>))) 3
     = Reply 200 (Candidates [select_candidate ana, select_candidate bia])"
  by (simp add: listCandidates_def findById_def find_users_def lookup_def candidate_query_def
      excluded_def updateProfile_def findByIdAndUpdate_def modify_def apply_updates_def
      or_else_def no_updates_def scenario_defs)

section \<open>Matches of a user\<close>

text \<open>
  C8. On a working store, the reply to a user U lists exactly the match records that have
  U in either slot (each as often as it is stored), in descending order of the creation
  time; in each, either slot holds the id, first name, last name and avatar of the user
  with the id of that slot (null when there is none), beside the creation time.
\<close>

theorem listMatches_sorted_complete:
  assumes "connected d"
  shows "\<exists>rs. listMatches d U =
           Reply 200 (Matches (map (\<lambda>r.
             \<lparr>m_userA = map_option
                  (\<lambda>u. \<lparr>q_id = u_id u, q_firstName = firstName u, q_lastName = lastName u,
                        q_avatar = avatar u\<rparr>)
                  (List.find (\<lambda>u. u_id u = userA r) (users d)),
              m_userB = map_option
                  (\<lambda>u. \<lparr>q_id = u_id u, q_firstName = firstName u, q_lastName = lastName u,
                        q_avatar = avatar u\<rparr>)
                  (List.find (\<lambda>u. u_id u = userB r) (users d)),
              m_createdAt = createdAt r\<rparr>) rs))
     \<and> mset rs = filter_mset (\<lambda>m. userA m = U \<or> userB m = U) (mset (matches d))
     \<and> sorted_wrt (\<lambda>x y. createdAt x \<ge> createdAt y) rs"
proof -
  define rs where
    "rs = sort_key (\<lambda>m. - createdAt m) (filter (\<lambda>m. userA m = U \<or> userB m = U) (matches d))"
  have pm: "populate_match d = (\<lambda>r.
             \<lparr>m_userA = map_option
                  (\<lambda>u. \<lparr>q_id = u_id u, q_firstName = firstName u, q_lastName = lastName u,
                        q_avatar = avatar u\<rparr>)
                  (List.find (\<lambda>u. u_id u = userA r) (users d)),
              m_userB = map_option
                  (\<lambda>u. \<lparr>q_id = u_id u, q_firstName = firstName u, q_lastName = lastName u,
                        q_avatar = avatar u\<rparr>)
                  (List.find (\<lambda>u. u_id u = userB r) (users d)),
              m_createdAt = createdAt r\<rparr>)"
  proof -
    have sp: "select_populated = (\<lambda>u. \<lparr>q_id = u_id u, q_firstName = firstName u,
            q_lastName = lastName u, q_avatar = avatar u\<rparr>)"
      by (rule ext) (simp add: select_populated_def)
    show ?thesis
      by (rule ext) (simp add: populate_match_def populate_def lookup_def sp)
  qed
  have 1: "listMatches d U = Reply 200 (Matches (map (populate_match d) rs))"
    using assms by (simp add: listMatches_def find_matches_def rs_def)
  have 2: "mset rs = filter_mset (\<lambda>m. userA m = U \<or> userB m = U) (mset (matches d))"
    by (simp add: rs_def)
  have "sorted (map (\<lambda>m. - createdAt m) rs)"
    unfolding rs_def by (rule sorted_sort_key)
  then have 3: "sorted_wrt (\<lambda>x y. createdAt x \<ge> createdAt y) rs"
    by (simp add: sorted_map)
  from 1 2 3 show ?thesis unfolding pm by blast
qed

theorem listMatches_sorted_complete_witness:
  "listMatches db_dates 1 =
     Reply 200 (Matches
       [\<lparr>m_userA = Some \<lparr>q_id = 3, q_firstName = ''Caio'', q_lastName = ''C'',
                          q_avatar = Some ''/uploads/caio.png''\<rparr>,
         m_userB = Some \<lparr>q_id = 1, q_firstName = ''Ana'', q_lastName = ''A'', q_avatar = None\<rparr>,
         m_createdAt = 9\<rparr>,
        \<lparr>m_userA = Some \<lparr>q_id = 1, q_firstName = ''Ana'', q_lastName = ''A'', q_avatar = None\<rparr>,
         m_userB = Some \<lparr>q_id = 2, q_firstName = ''Bia'', q_lastName = ''B'', q_avatar = None\<rparr>,
         m_createdAt = 5\<rparr>])"
proof -
  have c: "connected db_dates" by (simp add: scenario_defs)
  have e: "listMatches db_dates 1 =
     Reply 200 (Matches
       [\<lparr>m_userA = Some \<lparr>q_id = 3, q_firstName = ''Caio'', q_lastName = ''C'',
                          q_avatar = Some ''/uploads/caio.png''\<rparr>,
         m_userB = Some \<lparr>q_id = 1, q_firstName = ''Ana'', q_lastName = ''A'', q_avatar = None\<rparr>,
         m_createdAt = 9\<rparr>,
        \<lparr>m_userA = Some \<lparr>q_id = 1, q_firstName = ''Ana'', q_lastName = ''A'', q_avatar = None\<rparr>,
         m_userB = Some \<lparr>q_id = 2, q_firstName = ''Bia'', q_lastName = ''B'', q_avatar = None\<rparr>,
         m_createdAt = 5\<rparr>])"
    by (simp add: listMatches_def find_matches_def populate_match_def populate_def lookup_def
        select_populated_def scenario_defs)
  from listMatches_sorted_complete [OF c, of 1] e show ?thesis by simp
qed

section \<open>Failures of the store\<close>

text \<open>
  C9 fails for three handlers. When the store cannot be reached, the handlers for the
  matches, for the candidates and for the profile update write no response at all: they
  have no \<open>try\<close>, and their promise is rejected. The like handler and the list of all
  users, which do have one, answer 500 "Server error". On a working store the profile
  update is rejected in the same way by a date that does not parse and by an email
  address that another user has.
\<close>

theorem unguarded_handlers_reject:
  "listMatches db_down 1 = Rejected DbFailure
   \<and> listCandidates db_down 1 = Rejected DbFailure
   \<and> updateProfile db_down 1 no_updates = (db_down, Rejected DbFailure)
   \<and> like db_down 10 1 (Id 2) = (db_down, Reply 500 (Message ''Server error''))
   \<and> listAll db_down 1 = Reply 500 (Message ''Server error'')
   \<and> updateProfile db_fresh 1 (no_updates\<lparr>set_dob := Some Unparsable\<rparr>) =
       (db_fresh, Rejected CastError)
   \<and> updateProfile db_fresh 1 (no_updates\<lparr>set_email := Some ''bia@x.org''\<rparr>) =
       (db_fresh, Rejected DuplicateKey)"
  by (simp add: listMatches_def find_matches_def listCandidates_def findById_def
      updateProfile_def findByIdAndUpdate_def like_def like_try_def listAll_def find_users_def
      email_taken_def lower_char_def lookup_def no_updates_def scenario_defs)

lemma lower_char_example: "map lower_char ''Bia@X.org'' = ''bia@x.org''"
  by code_simp

section \<open>The matched state\<close>

subsection \<open>Plain use keeps the store consistent\<close>

lemma consistentI:
  assumes "\<And>i u j. lookup d i = Some u \<Longrightarrow> j \<in> set (liked u)
             \<Longrightarrow> \<exists>v. lookup d j = Some v \<and> i \<in> set (likedBy v)"
    and "\<And>m. m \<in> set (matches d) \<Longrightarrow> userA m \<noteq> userB m"
    and "\<And>m. m \<in> set (matches d) \<Longrightarrow>
           \<exists>a b. lookup d (userA m) = Some a \<and> lookup d (userB m) = Some b \<and>
               userB m \<in> set (liked a) \<and> userA m \<in> set (liked b)"
  shows "consistent d"
  unfolding consistent_def using assms by blast

lemma consistent_likedBy:
  "consistent d \<Longrightarrow> lookup d i = Some u \<Longrightarrow> j \<in> set (liked u)
     \<Longrightarrow> \<exists>v. lookup d j = Some v \<and> i \<in> set (likedBy v)"
  unfolding consistent_def by blast

lemma consistent_match:
  "consistent d \<Longrightarrow> m \<in> set (matches d) \<Longrightarrow>
     userA m \<noteq> userB m \<and>
     (\<exists>a b. lookup d (userA m) = Some a \<and> lookup d (userB m) = Some b \<and>
               userB m \<in> set (liked a) \<and> userA m \<in> set (liked b))"
  unfolding consistent_def by blast

text \<open>A store whose users keep their relation lists, up to new users who like nobody.\<close>

lemma consistent_transfer:
  assumes "consistent d" and "matches d' = matches d"
    and old: "\<And>i u. lookup d i = Some u \<Longrightarrow>
            \<exists>u'. lookup d' i = Some u' \<and> liked u' = liked u \<and> likedBy u' = likedBy u"
    and new: "\<And>i u'. lookup d' i = Some u' \<Longrightarrow>
            (\<exists>u. lookup d i = Some u \<and> liked u' = liked u) \<or> liked u' = []"
  shows "consistent d'"
proof (rule consistentI)
  fix i u' j
  assume l: "lookup d' i = Some u'" and j: "j \<in> set (liked u')"
  from new [OF l] j obtain u where u: "lookup d i = Some u" "liked u' = liked u"
    by auto
  with j consistent_likedBy [OF assms(1) u(1), of j]
  obtain v where v: "lookup d j = Some v" "i \<in> set (likedBy v)" by auto
  from old [OF v(1)] v(2) show "\<exists>v. lookup d' j = Some v \<and> i \<in> set (likedBy v)"
    by auto
next
  fix m assume "m \<in> set (matches d')"
  then show "userA m \<noteq> userB m"
    using consistent_match [OF assms(1), of m] assms(2) by simp
next
  fix m assume "m \<in> set (matches d')"
  then have m: "m \<in> set (matches d)" using assms(2) by simp
  from consistent_match [OF assms(1) m]
  obtain a b where ab: "lookup d (userA m) = Some a" "lookup d (userB m) = Some b"
    "userB m \<in> set (liked a)" "userA m \<in> set (liked b)" by blast
  from old [OF ab(1)] old [OF ab(2)] ab(3,4)
  show "\<exists>a b. lookup d' (userA m) = Some a \<and> lookup d' (userB m) = Some b \<and>
               userB m \<in> set (liked a) \<and> userA m \<in> set (liked b)"
    by auto
qed

lemma consistent_start: "consistent \<lparr>connected = c, users = [], matches = []\<rparr>"
  by (simp add: consistent_def lookup_def)

lemma consistent_connection: "consistent d \<Longrightarrow> consistent (d\<lparr>connected := c\<rparr>)"
  by (simp add: consistent_def lookup_def)

lemma find_append_case:
  "List.find P (xs @ ys) = (case List.find P xs of None \<Rightarrow> List.find P ys | Some x \<Rightarrow> Some x)"
  by (induction xs) auto

lemma lookup_append:
  "lookup (d\<lparr>users := users d @ [u]\<rparr>) i =
     (case lookup d i of Some x \<Rightarrow> Some x | None \<Rightarrow> if u_id u = i then Some u else None)"
  by (simp add: lookup_def find_append_case split: option.splits)

lemma register_cases:
  "fst (register d new_id hash sign b up) = d \<or>
   (\<exists>u. fst (register d new_id hash sign b up) = d\<lparr>users := users d @ [u]\<rparr> \<and>
        liked u = [] \<and> likedBy u = [])"
  by (auto simp: register_def create_user_def Let_def split: sum.splits if_splits)

lemma consistent_register:
  assumes "consistent d"
  shows "consistent (fst (register d new_id hash sign b up))"
proof -
  from register_cases [of d new_id hash sign b up]
  show ?thesis
  proof
    assume "fst (register d new_id hash sign b up) = d"
    with assms show ?thesis by simp
  next
    assume "\<exists>u. fst (register d new_id hash sign b up) = d\<lparr>users := users d @ [u]\<rparr> \<and>
        liked u = [] \<and> likedBy u = []"
    then obtain u where u: "fst (register d new_id hash sign b up) = d\<lparr>users := users d @ [u]\<rparr>"
      "liked u = []" "likedBy u = []" by blast
    have "consistent (d\<lparr>users := users d @ [u]\<rparr>)"
    proof (rule consistent_transfer [OF assms])
      show "matches (d\<lparr>users := users d @ [u]\<rparr>) = matches d" by simp
    next
      fix i x assume "lookup d i = Some x"
      then show "\<exists>u'. lookup (d\<lparr>users := users d @ [u]\<rparr>) i = Some u' \<and>
                 liked u' = liked x \<and> likedBy u' = likedBy x"
        by (simp add: lookup_append)
    next
      fix i u' assume "lookup (d\<lparr>users := users d @ [u]\<rparr>) i = Some u'"
      then show "(\<exists>x. lookup d i = Some x \<and> liked u' = liked x) \<or> liked u' = []"
        using u(2) by (auto simp: lookup_append split: option.splits if_splits)
    qed
    with u(1) show ?thesis by simp
  qed
qed

lemma update_cases:
  "fst (updateProfile d rid upd) = d \<or>
   fst (updateProfile d rid upd) = modify rid (apply_updates upd) d"
  by (auto simp: updateProfile_def findByIdAndUpdate_def split: option.splits)

lemma apply_updates_relations:
  "u_id (apply_updates upd u) = u_id u"
  "set_liked upd = None \<Longrightarrow> liked (apply_updates upd u) = liked u"
  "set_likedBy upd = None \<Longrightarrow> likedBy (apply_updates upd u) = likedBy u"
  by (simp_all add: apply_updates_def or_else_def)

lemma consistent_modify:
  assumes "consistent d"
    and "\<And>u. u_id (f u) = u_id u" and "\<And>u. liked (f u) = liked u"
    and "\<And>u. likedBy (f u) = likedBy u"
  shows "consistent (modify i f d)"
proof (rule consistent_transfer [OF assms(1)])
  show "matches (modify i f d) = matches d" by simp
next
  fix j x assume "lookup d j = Some x"
  then show "\<exists>u'. lookup (modify i f d) j = Some u' \<and> liked u' = liked x \<and> likedBy u' = likedBy x"
    using assms(3,4) by (simp add: lookup_modify [of f, OF assms(2)])
next
  fix j u' assume "lookup (modify i f d) j = Some u'"
  then show "(\<exists>x. lookup d j = Some x \<and> liked u' = liked x) \<or> liked u' = []"
    using assms(3) by (auto simp: lookup_modify [of f, OF assms(2)] split: option.splits if_splits)
qed

lemma consistent_update:
  assumes "consistent d" and "set_liked upd = None" and "set_likedBy upd = None"
  shows "consistent (fst (updateProfile d rid upd))"
proof -
  have "consistent (modify rid (apply_updates upd) d)"
    using assms by (intro consistent_modify) (simp_all add: apply_updates_relations)
  with assms(1) update_cases [of d rid upd] show ?thesis by auto
qed

lemma form_match_matches:
  assumes "connected d"
  shows "matches (fst (form_match d now me target)) = matches d \<or>
         (u_id me \<in> set (liked target) \<and>
          matches (fst (form_match d now me target)) =
            matches d @ [\<lparr>userA = u_id me, userB = u_id target, createdAt = now\<rparr>])"
  using assms by (simp add: form_match_ok)

lemma consistent_written:
  assumes con: "consistent d" and c: "connected d"
    and a: "lookup d A = Some a" and b: "lookup d B = Some b" and ne: "A \<noteq> B"
  shows "consistent (fst (form_match (written d a b) now a b))"
proof -
  define w where "w = written d a b"
  define w' where "w' = fst (form_match w now a b)"
  define a1 where "a1 = a\<lparr>liked := add_once B (liked a)\<rparr>"
  define b1 where "b1 = b\<lparr>likedBy := add_once A (likedBy b)\<rparr>"
  have ids: "u_id a = A" "u_id b = B"
    using a b by (auto dest: lookup_id)
  have cw: "connected w" using c by (simp add: w_def)
  have uw: "users w' = users w"
    unfolding w'_def by (rule form_match_users(1) [OF cw])
  have lw: "lookup w' i = (if i = A then Some a1 else if i = B then Some b1 else lookup d i)" for i
    using lookup_written [OF a b ne, of i] lookup_users_cong [OF uw, of i]
    by (simp add: w_def a1_def b1_def)
  have wa: "lookup w' A = Some a1" and wb: "lookup w' B = Some b1"
    using lw [of A] lw [of B] ne by simp_all
  have old_likedBy: "\<exists>v'. lookup w' j = Some v' \<and> i \<in> set (likedBy v')"
    if "lookup d j = Some v" "i \<in> set (likedBy v)" for i j v
    using that a b by (auto simp: lw a1_def b1_def set_add_once)
  have old_liked: "\<exists>u'. lookup w' i = Some u' \<and> j \<in> set (liked u')"
    if "lookup d i = Some u" "j \<in> set (liked u)" for i j u
    using that a b by (auto simp: lw a1_def b1_def set_add_once)
  have origin: "(i = A \<and> j = B) \<or> (\<exists>u. lookup d i = Some u \<and> j \<in> set (liked u))"
    if "lookup w' i = Some u'" "j \<in> set (liked u')" for i j u'
    using that a b by (auto simp: lw a1_def b1_def set_add_once split: if_splits)
  have ms: "matches w' = matches d \<or>
         (A \<in> set (liked b) \<and> matches w' = matches d @ [\<lparr>userA = A, userB = B, createdAt = now\<rparr>])"
    using form_match_matches [OF cw, of now a b] by (simp add: w'_def w_def ids)
  have mem: "m \<in> set (matches d) \<or> (A \<in> set (liked b) \<and> userA m = A \<and> userB m = B)"
    if "m \<in> set (matches w')" for m
    using that ms by auto
  have "consistent w'"
  proof (rule consistentI)
    fix i u' j
    assume "lookup w' i = Some u'" and "j \<in> set (liked u')"
    from origin [OF this]
    show "\<exists>v. lookup w' j = Some v \<and> i \<in> set (likedBy v)"
    proof
      assume "i = A \<and> j = B"
      then show ?thesis using wb by (simp add: b1_def set_add_once)
    next
      assume "\<exists>u. lookup d i = Some u \<and> j \<in> set (liked u)"
      then obtain u where "lookup d i = Some u" "j \<in> set (liked u)" by blast
      from consistent_likedBy [OF con this]
      obtain v where "lookup d j = Some v" "i \<in> set (likedBy v)" by blast
      then show ?thesis by (rule old_likedBy)
    qed
  next
    fix m assume "m \<in> set (matches w')"
    from mem [OF this] show "userA m \<noteq> userB m"
      using consistent_match [OF con, of m] ne by auto
  next
    fix m assume "m \<in> set (matches w')"
    from mem [OF this]
    show "\<exists>a b. lookup w' (userA m) = Some a \<and> lookup w' (userB m) = Some b \<and>
               userB m \<in> set (liked a) \<and> userA m \<in> set (liked b)"
    proof
      assume m: "m \<in> set (matches d)"
      from consistent_match [OF con m]
      obtain x y where xy: "lookup d (userA m) = Some x" "lookup d (userB m) = Some y"
        "userB m \<in> set (liked x)" "userA m \<in> set (liked y)" by blast
      from old_liked [OF xy(1,3)] old_liked [OF xy(2,4)] show ?thesis by blast
    next
      assume "A \<in> set (liked b) \<and> userA m = A \<and> userB m = B"
      then show ?thesis
        using wa wb by (simp add: a1_def b1_def set_add_once)
    qed
  qed
  then show ?thesis by (simp add: w'_def w_def)
qed


lemma selected_plain:
  assumes "selected d t = Some b" and "\<not> equals rid t" and "\<forall>P. t \<noteq> Matching P"
  obtains B where "t = Id B" and "lookup d B = Some b" and "rid \<noteq> B"
  using assms by (cases t) (auto simp: selected_def equals_def)

lemma consistent_like:
  assumes "consistent d" and "\<forall>P. t \<noteq> Matching P"
  shows "consistent (fst (like d now rid t))"
proof -
  from like_cases [of d now rid t] show ?thesis
  proof
    assume "fst (like d now rid t) = d"
    with assms show ?thesis by simp
  next
    assume "\<exists>a b. connected d \<and> lookup d rid = Some a \<and> selected d t = Some b \<and>
      \<not> equals rid t \<and> like_try d now rid t = form_match (written d a b) now a b"
    then obtain a b where *: "connected d" "lookup d rid = Some a" "selected d t = Some b"
      "\<not> equals rid t" "like_try d now rid t = form_match (written d a b) now a b" by blast
    from selected_plain [OF *(3,4) assms(2)]
    obtain B where B: "lookup d B = Some b" "rid \<noteq> B" by blast
    have "fst (like d now rid t) = fst (form_match (written d a b) now a b)"
      using like_of_form_match [OF *(5)] *(1) by auto
    with consistent_written [OF assms(1) *(1,2) B, of now] show ?thesis by simp
  qed
qed

lemma plain_use_consistent: "plain_use d \<Longrightarrow> consistent d"
proof (induction rule: plain_use.induct)
  case (start c)
  show ?case by (rule consistent_start)
next
  case (connection d c)
  then show ?case by (simp add: consistent_connection)
next
  case (by_register d new_id hash sign b up)
  then show ?case by (simp add: consistent_register)
next
  case (by_like d t now rid)
  then show ?case by (simp add: consistent_like)
next
  case (by_update d upd rid)
  then show ?case by (simp add: consistent_update)
qed

subsection \<open>The scenario, step by step\<close>

lemma scenario_register_ana:
  "fst (register db_empty 1 hash_demo sign_demo reg_ana None) = db_ana"
  by (simp add: register_def create_user_def lower_char_def Let_def hash_demo_def scenario_defs)

lemma scenario_register_bia:
  "fst (register db_ana 2 hash_demo sign_demo reg_bia None) = db_fresh"
  by (simp add: register_def create_user_def lower_char_def Let_def hash_demo_def scenario_defs)

lemma scenario_first_like: "like db_fresh 10 1 (Id 2) = (db_liked, Reply 200 (Message ''Liked''))"
  by (simp add: like_def like_try_def findById_def findById_target_def equals_def lookup_def
      push_liked_def push_likedBy_def save_liked_def save_likedBy_def modify_def form_match_def
      scenario_defs)

lemma scenario_second_like:
  "like db_liked 20 2 (Id 1) =
     (db_matched, Reply 200 (MessageMatch ''It's a match!'' \<lparr>userA = 2, userB = 1, createdAt = 20\<rparr>))"
  by (simp add: like_def like_try_def findById_def findById_target_def equals_def lookup_def
      push_liked_def push_likedBy_def save_liked_def save_likedBy_def modify_def form_match_def
      findOne_match_def create_match_def Let_def scenario_defs)

lemma plain_use_db_matched: "plain_use db_matched"
proof -
  have "plain_use db_empty" unfolding db_empty_def by (rule plain_use.start)
  then have "plain_use (fst (register db_empty 1 hash_demo sign_demo reg_ana None))"
    by (rule plain_use.by_register)
  then have "plain_use db_ana" by (simp only: scenario_register_ana)
  then have "plain_use (fst (register db_ana 2 hash_demo sign_demo reg_bia None))"
    by (rule plain_use.by_register)
  then have "plain_use db_fresh" by (simp only: scenario_register_bia)
  then have "plain_use (fst (like db_fresh 10 1 (Id 2)))"
    by (rule plain_use.by_like) simp
  then have "plain_use db_liked" by (simp only: scenario_first_like fst_conv)
  then have "plain_use (fst (like db_liked 20 2 (Id 1)))"
    by (rule plain_use.by_like) simp
  then show ?thesis by (simp only: scenario_second_like fst_conv)
qed

subsection \<open>Likes between matched users\<close>

lemma pairs_sym: "pairs a b m \<longleftrightarrow> pairs b a m"
  by (auto simp: pairs_def)

text \<open>
  A like between two users whom a match record pairs: its two writes, as far as they are
  due, and the answer "Liked".
\<close>

lemma matched_like:
  assumes "connected d" and "lookup d A = Some a" and "lookup d B = Some b" and "A \<noteq> B"
    and "m \<in> set (matches d)" and "pairs A B m"
  shows "like d now A (Id B) = (written d a b, Reply 200 (Message ''Liked''))"
proof -
  have ids: "u_id a = A" "u_id b = B"
    using assms(2,3) by (auto dest: lookup_id)
  have "form_match (written d a b) now a b = (written d a b, Inr (200, Message ''Liked''))"
    using assms(1,5,6) by (auto simp: form_match_ok ids)
  with like_try_ok [OF assms(1-4), of now] show ?thesis by (simp add: like_def)
qed

lemma written_same_iff:
  assumes "lookup d A = Some a" and "lookup d B = Some b" and "A \<noteq> B"
  shows "written d a b = d \<longleftrightarrow> B \<in> set (liked a) \<and> A \<in> set (likedBy b)"
proof
  assume "B \<in> set (liked a) \<and> A \<in> set (likedBy b)"
  then show "written d a b = d"
    using assms(1,2) by (intro written_again) (auto dest: lookup_id)
next
  assume same: "written d a b = d"
  from lookup_written [OF assms, of A] same assms(1)
  have "a\<lparr>liked := add_once B (liked a)\<rparr> = a" by simp
  then have "liked (a\<lparr>liked := add_once B (liked a)\<rparr>) = liked a" by simp
  then have 1: "B \<in> set (liked a)"
    using mem_add_once [of B "liked a"] by simp
  from lookup_written [OF assms, of B] same assms(2,3)
  have "b\<lparr>likedBy := add_once A (likedBy b)\<rparr> = b" by simp
  then have "likedBy (b\<lparr>likedBy := add_once A (likedBy b)\<rparr>) = likedBy b" by simp
  then have 2: "A \<in> set (likedBy b)"
    using mem_add_once [of A "likedBy b"] by simp
  from 1 2 show "B \<in> set (liked a) \<and> A \<in> set (likedBy b)" ..
qed

text \<open>
  In plain use the two users of a match record are in each other's lists, so a like between
  them changes nothing.
\<close>

lemma plain_use_matched_terminal:
  assumes "plain_use d" and "connected d" and "m \<in> set (matches d)" and "pairs A B m"
  shows "like d now A (Id B) = (d, Reply 200 (Message ''Liked''))
       \<and> like d now B (Id A) = (d, Reply 200 (Message ''Liked''))"
proof -
  have con: "consistent d" using assms(1) by (rule plain_use_consistent)
  from consistent_match [OF con assms(3)]
  obtain x y where xy: "userA m \<noteq> userB m" "lookup d (userA m) = Some x"
    "lookup d (userB m) = Some y" "userB m \<in> set (liked x)" "userA m \<in> set (liked y)"
    by blast
  from assms(4) xy obtain a b where ab: "A \<noteq> B" "lookup d A = Some a" "lookup d B = Some b"
    "B \<in> set (liked a)" "A \<in> set (liked b)"
    by (auto simp: pairs_def)
  from consistent_likedBy [OF con ab(2,4)] ab(3) have 1: "A \<in> set (likedBy b)" by auto
  from consistent_likedBy [OF con ab(3,5)] ab(2) have 2: "B \<in> set (likedBy a)" by auto
  have ba: "B \<noteq> A" using ab(1) by simp
  have p: "pairs B A m" using assms(4) by (simp add: pairs_sym)
  have "written d a b = d" "written d b a = d"
    using ab 1 2 ba by (simp_all add: written_same_iff)
  with matched_like [OF assms(2) ab(2,3,1) assms(3,4), of now]
    matched_like [OF assms(2) ab(3,2) ba assms(3) p, of now]
  show ?thesis by simp
qed

text \<open>
  Whatever the store, a like between two users whom a match record pairs adds no match
  record.
\<close>

lemma like_no_second_match:
  assumes "m \<in> set (matches d)" and "pairs A B m"
  shows "matches (fst (like d now A (Id B))) = matches d"
proof -
  from like_cases [of d now A "Id B"] show ?thesis
  proof
    assume "fst (like d now A (Id B)) = d"
    then show ?thesis by simp
  next
    assume "\<exists>a b. connected d \<and> lookup d A = Some a \<and> selected d (Id B) = Some b \<and>
      \<not> equals A (Id B) \<and> like_try d now A (Id B) = form_match (written d a b) now a b"
    then obtain a b where *: "connected d" "lookup d A = Some a" "lookup d B = Some b"
      "A \<noteq> B" by (auto simp: selected_def equals_def)
    from matched_like [OF * assms, of now] show ?thesis by simp
  qed
qed




section \<open>Profile updates and the relation lists\<close>

text \<open>
  In plain use registrations, likes and updates of other fields keep the invariant of the
  relation lists.
\<close>

lemma relations_ok_users: "users d' = users d \<Longrightarrow> relations_ok d' = relations_ok d"
  by (simp add: relations_ok_def)

lemma relations_ok_lookup: "relations_ok d \<Longrightarrow> lookup d i = Some u \<Longrightarrow> user_ok u"
  by (auto simp: relations_ok_def list_all_iff dest: lookup_mem)

lemma relations_ok_modify:
  assumes "relations_ok d" and "\<And>u. user_ok u \<Longrightarrow> u_id u = i \<Longrightarrow> user_ok (f u)"
  shows "relations_ok (modify i f d)"
  using assms by (auto simp: relations_ok_def modify_def list_all_iff)

lemma user_ok_liked:
  "user_ok u \<Longrightarrow> user_ok a \<Longrightarrow> u_id u = u_id a \<Longrightarrow> u_id a \<noteq> B \<Longrightarrow> B \<notin> set (liked a)
     \<Longrightarrow> user_ok (u\<lparr>liked := liked a @ [B]\<rparr>)"
  by (auto simp: user_ok_def)

lemma user_ok_likedBy:
  "user_ok u \<Longrightarrow> user_ok b \<Longrightarrow> u_id u = u_id b \<Longrightarrow> u_id b \<noteq> A \<Longrightarrow> A \<notin> set (likedBy b)
     \<Longrightarrow> user_ok (u\<lparr>likedBy := likedBy b @ [A]\<rparr>)"
  by (auto simp: user_ok_def)

lemma relations_ok_written:
  assumes "relations_ok d" and "lookup d A = Some a" and "lookup d B = Some b" and "A \<noteq> B"
  shows "relations_ok (written d a b)"
proof -
  have ids: "u_id a = A" "u_id b = B"
    using assms(2,3) by (auto dest: lookup_id)
  have ok: "user_ok a" "user_ok b"
    using assms(1-3) by (auto dest: relations_ok_lookup)
  define d1 where "d1 = (if u_id b \<in> set (liked a) then d
                else modify (u_id a) (\<lambda>u. u\<lparr>liked := liked a @ [u_id b]\<rparr>) d)"
  have 1: "relations_ok d1"
    unfolding d1_def using assms(1,4) ok ids
    by (auto intro!: relations_ok_modify user_ok_liked)
  have 2: "relations_ok (if u_id a \<in> set (likedBy b) then d1
         else modify (u_id b) (\<lambda>u. u\<lparr>likedBy := likedBy b @ [u_id a]\<rparr>) d1)"
    using 1 assms(4) ok ids
    by (auto intro!: relations_ok_modify user_ok_likedBy)
  have "written d a b = (if u_id a \<in> set (likedBy b) then d1
         else modify (u_id b) (\<lambda>u. u\<lparr>likedBy := likedBy b @ [u_id a]\<rparr>) d1)"
    unfolding written_def Let_def d1_def ..
  with 2 show ?thesis by simp
qed

lemma like_keeps_relations:
  assumes "relations_ok d" and "\<forall>P. t \<noteq> Matching P"
  shows "relations_ok (fst (like d now rid t))"
proof -
  from like_cases [of d now rid t] show ?thesis
  proof
    assume "fst (like d now rid t) = d"
    with assms show ?thesis by simp
  next
    assume "\<exists>a b. connected d \<and> lookup d rid = Some a \<and> selected d t = Some b \<and>
      \<not> equals rid t \<and> like_try d now rid t = form_match (written d a b) now a b"
    then obtain a b where *: "connected d" "lookup d rid = Some a" "selected d t = Some b"
      "\<not> equals rid t" "like_try d now rid t = form_match (written d a b) now a b" by blast
    from selected_plain [OF *(3,4) assms(2)]
    obtain B where B: "lookup d B = Some b" "rid \<noteq> B" by blast
    have cw: "connected (written d a b)" using *(1) by simp
    have f: "fst (like d now rid t) = fst (form_match (written d a b) now a b)"
      using like_of_form_match [OF *(5) cw] by auto
    from form_match_users(1) [OF cw, of now a b] f
    have "users (fst (like d now rid t)) = users (written d a b)" by simp
    from relations_ok_users [OF this] relations_ok_written [OF assms(1) *(2) B]
    show ?thesis by simp
  qed
qed

lemma register_keeps_relations:
  assumes "relations_ok d"
  shows "relations_ok (fst (register d new_id hash sign b up))"
  using register_cases [of d new_id hash sign b up] assms
  by (auto simp: relations_ok_def user_ok_def)

lemma update_keeps_relations:
  assumes "relations_ok d" and "set_liked upd = None" and "set_likedBy upd = None"
  shows "relations_ok (fst (updateProfile d rid upd))"
proof -
  have "relations_ok (modify rid (apply_updates upd) d)"
    using assms by (intro relations_ok_modify) (simp_all add: user_ok_def apply_updates_relations)
  with assms(1) update_cases [of d rid upd] show ?thesis by auto
qed

lemma plain_use_relations_ok: "plain_use d \<Longrightarrow> relations_ok d"
proof (induction rule: plain_use.induct)
  case (start c)
  show ?case by (simp add: relations_ok_def)
next
  case (connection d c)
  then show ?case by (simp add: relations_ok_def)
next
  case (by_register d new_id hash sign b up)
  then show ?case by (simp add: register_keeps_relations)
next
  case (by_like d t now rid)
  then show ?case by (simp add: like_keeps_relations)
next
  case (by_update d upd rid)
  then show ?case by (simp add: update_keeps_relations)
qed

text \<open>
  A like whose target is an object of query operators is past the self check whatever it
  selects: \<open>{ $ne: null }\<close> selects the first user, here the requester.
\<close>

lemma like_operator_target:
  "like db_fresh 10 1 (Matching (\<lambda>i. True)) =
     (\<lparr>connected = True, users = [ana\<lparr>liked := [1], likedBy := [1]\<rparr>, bia], matches = []\<rparr>,
      Reply 200 (Message ''Liked''))"
  by (simp add: like_def like_try_def findById_def findById_target_def equals_def lookup_def
      push_liked_def push_likedBy_def save_liked_def save_likedBy_def modify_def form_match_def
      scenario_defs)

text \<open>
  C3 fails for the profile update. The store of A and B, fresh from registration, keeps
  the invariant; A's update with the body \<open>{ liked: [A, A] }\<close> is stored as given, and
  the invariant is gone: A's liked list holds A, twice.
\<close>

theorem update_breaks_relations:
  "relations_ok db_fresh
   \<and> updateProfile db_fresh 1 (no_updates\<lparr>set_liked := Some [1, 1]\<rparr>) =
       (\<lparr>connected = True, users = [ana\<lparr>liked := [1, 1]\<rparr>, bia], matches = []\<rparr>,
        Reply 200 (Profile (Some (select_profile (ana\<lparr>liked := [1, 1]\<rparr>)))))
   \<and> \<not> relations_ok (fst (updateProfile db_fresh 1 (no_updates\<lparr>set_liked := Some [1, 1]\<rparr>)))"
  by (simp add: relations_ok_def user_ok_def updateProfile_def findByIdAndUpdate_def lookup_def
      modify_def apply_updates_def or_else_def no_updates_def scenario_defs)

end
